theory Spec2Isabelle
  imports Complex_Main
begin

section \<open>Data model\<close>

text \<open>
  A calendar date is its proleptic Gregorian ordinal (Python's \<^verbatim>\<open>date.toordinal()\<close>), so
  that \<^verbatim>\<open>(end - start).days\<close> is the difference of two integers and the daily
  \<^verbatim>\<open>pl.date_range(start, end, interval="1d")\<close> is the list \<open>[start..end]\<close>.
  A cell of an integer column is \<open>None\<close> for polars' null.
\<close>

type_synonym date = int

type_synonym cell = "int option"

text \<open>
  The exceptions that the modelled code can raise, each with its message. \<open>TimestampError\<close>
  stands for what \<^verbatim>\<open>datetime.fromtimestamp\<close> raises: \<^verbatim>\<open>ValueError\<close> for a year outside 1 to 9999,
  \<^verbatim>\<open>OverflowError\<close> or \<^verbatim>\<open>OSError\<close> outside what the platform's \<^verbatim>\<open>localtime\<close> supports.
\<close>

datatype error =
    ValueError string
  | AttributeError string
  | ColumnNotFoundError string
  | RequestError string
  | TimestampError string

text \<open>
  A polars \<^verbatim>\<open>DataFrame\<close> as far as this program uses one: the column names in order, and
  the rows. Every frame of the program either has the key column \<^verbatim>\<open>Date\<close> or has no column
  at all, so a row is kept as its date together with the cells of the remaining columns, in
  column order.
\<close>

record DataFrame =
  columns :: "string list"
  rows :: "(date \<times> cell list) list"

definition height :: "DataFrame \<Rightarrow> nat" where
  "height df = length (rows df)"

definition value_columns :: "DataFrame \<Rightarrow> string list" where
  "value_columns df = removeAll ''Date'' (columns df)"

fun column_index :: "string \<Rightarrow> string list \<Rightarrow> nat option" where
  "column_index name [] = None"
| "column_index name (c # cs) =
     (if c = name then Some 0 else map_option Suc (column_index name cs))"

subsection \<open>The polars operations the program calls\<close>

text \<open>
  \<^verbatim>\<open>df.join(other, on="Date", how=...)\<close> for \<^verbatim>\<open>how="left"\<close> and \<^verbatim>\<open>how="outer_coalesce"\<close>.
  Both frames must have the key column. Every row of the left frame is paired with each row
  of the right frame that has the same date, or with nulls when there is none; the outer
  join then appends the right rows whose date the left frame does not have, with nulls for
  the left columns. Only the key column is coalesced: a column of the right frame whose name
  the left frame already has is kept as a column of its own under the name with the suffix
  \<^verbatim>\<open>_right\<close> (the default of the parameter \<^verbatim>\<open>suffix\<close>). Polars does not promise the order of
  the rows of an outer join; the model puts the rows of the left frame first.
\<close>

datatype how = Left | OuterCoalesce

definition right_names :: "DataFrame \<Rightarrow> DataFrame \<Rightarrow> string list" where
  "right_names df other =
     map (\<lambda>c. if c \<in> set (columns df) then c @ ''_right'' else c) (value_columns other)"

definition matching :: "date \<Rightarrow> (date \<times> cell list) list \<Rightarrow> cell list list" where
  "matching d rs = map snd (filter (\<lambda>r. fst r = d) rs)"

definition join_row ::
  "nat \<Rightarrow> (date \<times> cell list) list \<Rightarrow> date \<times> cell list \<Rightarrow> (date \<times> cell list) list" where
  "join_row k rs l =
     (if matching (fst l) rs = [] then [(fst l, snd l @ replicate k None)]
      else map (\<lambda>ws. (fst l, snd l @ ws)) (matching (fst l) rs))"

definition unmatched_rows ::
  "nat \<Rightarrow> (date \<times> cell list) list \<Rightarrow> (date \<times> cell list) list \<Rightarrow> (date \<times> cell list) list" where
  "unmatched_rows k ls rs =
     map (\<lambda>r. (fst r, replicate k None @ snd r)) (filter (\<lambda>r. fst r \<notin> fst ` set ls) rs)"

definition join :: "DataFrame \<Rightarrow> DataFrame \<Rightarrow> how \<Rightarrow> error + DataFrame" where
  "join df other h =
     (if ''Date'' \<notin> set (columns df) \<or> ''Date'' \<notin> set (columns other)
      then Inl (ColumnNotFoundError ''Date'')
      else Inr \<lparr>columns = columns df @ right_names df other,
                rows = concat (map (join_row (length (value_columns other)) (rows other)) (rows df))
                  @ (case h of Left \<Rightarrow> []
                     | OuterCoalesce \<Rightarrow>
                         unmatched_rows (length (value_columns df)) (rows df) (rows other))\<rparr>)"

text \<open>
  \<^verbatim>\<open>df.with_columns(pl.col(name).<expression>)\<close>: the named column is replaced by the
  expression's result; an unknown name raises.
\<close>

definition with_column ::
  "string \<Rightarrow> (cell list \<Rightarrow> cell list) \<Rightarrow> DataFrame \<Rightarrow> error + DataFrame" where
  "with_column name f df =
     (case column_index name (value_columns df) of
        None \<Rightarrow> Inl (ColumnNotFoundError name)
      | Some i \<Rightarrow>
          Inr (df\<lparr>rows := map (\<lambda>(r, v). (fst r, (snd r)[i := v]))
                             (zip (rows df) (f (map (\<lambda>r. snd r ! i) (rows df))))\<rparr>))"

text \<open>\<^verbatim>\<open>fill_null(0)\<close> and \<^verbatim>\<open>fill_null(strategy="backward")\<close> on one column.\<close>

definition fill_null_value :: "int \<Rightarrow> cell list \<Rightarrow> cell list" where
  "fill_null_value c = map (\<lambda>v. case v of None \<Rightarrow> Some c | Some x \<Rightarrow> Some x)"

fun fill_null_backward :: "cell list \<Rightarrow> cell list" where
  "fill_null_backward [] = []"
| "fill_null_backward (v # vs) =
     (case v of
        Some x \<Rightarrow> Some x # fill_null_backward vs
      | None \<Rightarrow>
          (case fill_null_backward vs of
             [] \<Rightarrow> [None]
           | n # ns \<Rightarrow> n # n # ns))"

text \<open>
  \<^verbatim>\<open>df.sort("Date")\<close>. Polars does not promise an order among rows of equal date; the model
  keeps them in their order (a stable sort).
\<close>

definition sort_df :: "DataFrame \<Rightarrow> DataFrame" where
  "sort_df df = df\<lparr>rows := sort_key fst (rows df)\<rparr>"

section \<open>The world outside the program\<close>

text \<open>
  A value of the JSON payload: a number, carried as the exact value of the Python number
  that the JSON parser produced, or a string.
\<close>

datatype json = JNumber rat | JString string

text \<open>
  What the program reads from its surroundings and the library functions whose details no
  property below depends on:
  \<^item> \<open>strptime s\<close> is \<^verbatim>\<open>datetime.strptime(s, "%Y-%m-%d").date()\<close>: the date, or the message
    of the \<^verbatim>\<open>ValueError\<close>;
  \<^item> \<open>localdate t\<close> is \<^verbatim>\<open>datetime.fromtimestamp(t).date()\<close> for a whole number \<open>t\<close> of seconds:
    the machine's local calendar date of that instant, or the message of the exception;
  \<^item> \<open>int_of_str s\<close> is \<^verbatim>\<open>int(s)\<close> for a string;
  \<^item> \<open>files p\<close> is the table (columns \<^verbatim>\<open>Date\<close>, \<^verbatim>\<open>Fear Greed\<close>) read from the CSV file at
    path \<open>p\<close>, or \<open>None\<close> when no file is there;
  \<^item> \<open>api s\<close> is the list \<^verbatim>\<open>fear_and_greed_historical.data\<close> of the response to the request for
    start date \<open>s\<close>, each entry as its pair \<^verbatim>\<open>(x, y)\<close>, or the message of the transport error;
  \<^item> \<open>suffix\<close> and \<open>with_suffix\<close> are the methods of \<^verbatim>\<open>pathlib.Path\<close>.
\<close>

record world =
  strptime :: "string \<Rightarrow> string + date"
  localdate :: "int \<Rightarrow> string + date"
  int_of_str :: "string \<Rightarrow> string + int"
  files :: "string \<Rightarrow> (date \<times> cell) list option"
  api :: "string \<Rightarrow> string + (json \<times> json) list"
  suffix :: "string \<Rightarrow> string"
  with_suffix :: "string \<Rightarrow> string \<Rightarrow> string"

text \<open>What the program does to its surroundings, in order.\<close>

datatype event =
    Print string
  | HttpGet string
  | WriteParquet string DataFrame
  | WriteCsv string DataFrame
  | PrintSummary DataFrame

section \<open>fngindex.py\<close>

definition BASE_URL :: string where
  "BASE_URL = ''https://production.dataviz.cnn.io/index/fearandgreed/graphdata/''"

definition fetch_historical_data ::
  "world \<Rightarrow> string \<Rightarrow> event list \<times> (error + (json \<times> json) list)" where
  "fetch_historical_data w start_date =
     ([HttpGet (BASE_URL @ start_date)],
      (case api w start_date of Inl m \<Rightarrow> Inl (RequestError m) | Inr payload \<Rightarrow> Inr payload))"

text \<open>
  \<^verbatim>\<open>pl.read_csv(csv_file, try_parse_dates=True, columns=["Date", "Fear Greed"])\<close> with the
  \<^verbatim>\<open>Date\<close> column cast to dates, of a file holding the given table.
\<close>

definition read_csv :: "(date \<times> cell) list \<Rightarrow> DataFrame" where
  "read_csv table = \<lparr>columns = [''Date'', ''Fear Greed''], rows = map (\<lambda>(d, v). (d, [v])) table\<rparr>"

text \<open>
  \<^verbatim>\<open>load_existing_data\<close> returns Python's \<^verbatim>\<open>None\<close> (here \<open>None\<close>) after the warning when the
  file does not exist.
\<close>

definition load_existing_data :: "world \<Rightarrow> string \<Rightarrow> event list \<times> DataFrame option" where
  "load_existing_data w csv_file =
     (case files w csv_file of
        None \<Rightarrow> ([Print (''[yellow]Warning: '' @ csv_file @ '' not found[/yellow]'')], None)
      | Some table \<Rightarrow> ([], Some (read_csv table)))"

text \<open>
  \<^verbatim>\<open>int(v)\<close> of a payload value: a number is truncated towards zero, a string is parsed.
\<close>

definition py_int :: "world \<Rightarrow> json \<Rightarrow> error + int" where
  "py_int w v =
     (case v of
        JNumber q \<Rightarrow> Inr (if 0 \<le> q then \<lfloor>q\<rfloor> else \<lceil>q\<rceil>)
      | JString s \<Rightarrow> (case int_of_str w s of Inl m \<Rightarrow> Inl (ValueError m) | Inr i \<Rightarrow> Inr i))"

text \<open>
  \<^verbatim>\<open>datetime.fromtimestamp(timestamp / 1000).date()\<close> for an integer \<open>timestamp\<close> of
  milliseconds. The library splits its argument into whole seconds and microseconds and
  takes the date, and every check it makes, from the whole seconds, here
  \<open>timestamp div 1000\<close>. (The argument is the float nearest to the quotient. It lies in the
  same second as the quotient up to \<open>2^44\<close> seconds from the epoch, far beyond the years 1 to
  9999; further out the library raises whichever second it is given, and only the message
  can differ from the model's.)
\<close>

definition fromtimestamp_date :: "world \<Rightarrow> int \<Rightarrow> error + date" where
  "fromtimestamp_date w timestamp =
     (case localdate w (timestamp div 1000) of
        Inl m \<Rightarrow> Inl (TimestampError m)
      | Inr d \<Rightarrow> Inr d)"

text \<open>The body of the conversion loop (lines 82 to 86), and the loop.\<close>

definition api_record :: "world \<Rightarrow> json \<times> json \<Rightarrow> error + date \<times> int" where
  "api_record w record =
     (case py_int w (fst record) of
        Inl e \<Rightarrow> Inl e
      | Inr timestamp \<Rightarrow>
          (case fromtimestamp_date w timestamp of
             Inl e \<Rightarrow> Inl e
           | Inr d \<Rightarrow>
               (case py_int w (snd record) of
                  Inl e \<Rightarrow> Inl e
                | Inr v \<Rightarrow> Inr (d, v))))"

fun api_records :: "world \<Rightarrow> (json \<times> json) list \<Rightarrow> error + (date \<times> int) list" where
  "api_records w [] = Inr []"
| "api_records w (record # historical_data) =
     (case api_record w record of
        Inl e \<Rightarrow> Inl e
      | Inr r \<Rightarrow>
          (case api_records w historical_data of
             Inl e \<Rightarrow> Inl e
           | Inr rs \<Rightarrow> Inr (r # rs)))"

text \<open>
  \<^verbatim>\<open>pl.DataFrame(api_records)\<close> of a list of dictionaries with the keys \<^verbatim>\<open>Date\<close> and
  \<^verbatim>\<open>Fear Greed\<close>. Of the empty list it is the frame with no column.
\<close>

definition api_df :: "(date \<times> int) list \<Rightarrow> DataFrame" where
  "api_df records =
     (if records = [] then \<lparr>columns = [], rows = []\<rparr>
      else \<lparr>columns = [''Date'', ''Fear Greed''],
            rows = map (\<lambda>(d, v). (d, [Some v])) records\<rparr>)"

text \<open>
  Lines 90 to 95: \<^verbatim>\<open>fng_data.height\<close> raises on \<^verbatim>\<open>None\<close>; existing rows are joined with the
  fetched ones, and with no existing row the fetched frame is taken as it is.
\<close>

definition combined :: "DataFrame option \<Rightarrow> DataFrame \<Rightarrow> error + DataFrame" where
  "combined fng_data api_frame =
     (case fng_data of
        None \<Rightarrow>
          Inl (AttributeError
                 (CHR 0x27 # ''NoneType' object has no attribute 'height'' @ [CHR 0x27]))
      | Some fng \<Rightarrow> if height fng > 0 then join fng api_frame OuterCoalesce else Inr api_frame)"

text \<open>
  Lines 97 to 104: one row for each day from \<open>s\<close> to \<open>e\<close>. (For \<open>s\<close> after \<open>e\<close> the model takes
  the empty range; \<open>scrape\<close> never asks for one.)
\<close>

definition date_range :: "date \<Rightarrow> date \<Rightarrow> DataFrame" where
  "date_range s e = \<lparr>columns = [''Date''], rows = map (\<lambda>d. (d, [])) [s..e]\<rparr>"

text \<open>Lines 109 to 115.\<close>

definition fill_missing :: "bool \<Rightarrow> DataFrame \<Rightarrow> error + DataFrame" where
  "fill_missing backfill result =
     (if backfill then with_column ''Fear Greed'' fill_null_backward result
      else with_column ''Fear Greed'' (fill_null_value 0) result)"

text \<open>Lines 90 to 118, everything after the conversion of the payload.\<close>

definition reconcile ::
  "world \<Rightarrow> DataFrame option \<Rightarrow> DataFrame \<Rightarrow> string \<Rightarrow> string \<Rightarrow> bool \<Rightarrow> error + DataFrame" where
  "reconcile w fng_data api_frame start_date end_date backfill =
     (case combined fng_data api_frame of
        Inl e \<Rightarrow> Inl e
      | Inr comb \<Rightarrow>
          (case strptime w start_date of
             Inl m \<Rightarrow> Inl (ValueError m)
           | Inr s \<Rightarrow>
               (case strptime w end_date of
                  Inl m \<Rightarrow> Inl (ValueError m)
                | Inr e \<Rightarrow>
                    (case join (date_range s e) comb Left of
                       Inl err \<Rightarrow> Inl err
                     | Inr result \<Rightarrow>
                         (case fill_missing backfill result of
                            Inl err \<Rightarrow> Inl err
                          | Inr filled \<Rightarrow> Inr (sort_df filled))))))"

text \<open>
  \<^verbatim>\<open>process_data\<close>: the events it causes and the frame it returns or the exception it raises.
  Without \<^verbatim>\<open>csv_file\<close> the existing data is the empty frame with the two columns.
\<close>

definition process_data ::
  "world \<Rightarrow> string \<Rightarrow> string \<Rightarrow> string option \<Rightarrow> bool \<Rightarrow> event list \<times> (error + DataFrame)" where
  "process_data w start_date end_date csv_file backfill =
     (let loaded = (case csv_file of
                      Some p \<Rightarrow> load_existing_data w p
                    | None \<Rightarrow> ([], Some \<lparr>columns = [''Date'', ''Fear Greed''], rows = []\<rparr>));
          fetched = fetch_historical_data w start_date
      in (fst loaded @ fst fetched,
          (case snd fetched of
             Inl e \<Rightarrow> Inl e
           | Inr historical_data \<Rightarrow>
               (case api_records w historical_data of
                  Inl e \<Rightarrow> Inl e
                | Inr records \<Rightarrow>
                    reconcile w (snd loaded) (api_df records) start_date end_date backfill))))"

text \<open>
  \<^verbatim>\<open>str.lower()\<close> and \<^verbatim>\<open>str.upper()\<close> on the ASCII letters (no character beyond ASCII is
  lowered to a letter of \<^verbatim>\<open>parquet\<close> or \<^verbatim>\<open>csv\<close>, so the comparisons with these words are
  exact).
\<close>

definition lower :: "string \<Rightarrow> string" where
  "lower =
     map (\<lambda>c. case map_of (zip ''ABCDEFGHIJKLMNOPQRSTUVWXYZ'' ''abcdefghijklmnopqrstuvwxyz'') c of
               None \<Rightarrow> c
             | Some l \<Rightarrow> l)"

definition upper :: "string \<Rightarrow> string" where
  "upper =
     map (\<lambda>c. case map_of (zip ''abcdefghijklmnopqrstuvwxyz'' ''ABCDEFGHIJKLMNOPQRSTUVWXYZ'') c of
               None \<Rightarrow> c
             | Some u \<Rightarrow> u)"

text \<open>
  The check mark of the message of \<^verbatim>\<open>save_data\<close>, as its UTF-8 bytes, and the seven bytes that
  line 122 of \<^verbatim>\<open>cli.py\<close> holds in its place (a check mark encoded once too often).
\<close>

definition check_mark :: string where
  "check_mark = [CHR 0xE2, CHR 0x9C, CHR 0x93]"

definition check_mark_cli :: string where
  "check_mark_cli = [CHR 0xC3, CHR 0xA2, CHR 0xC5, CHR 0x93, CHR 0xE2, CHR 0x80, CHR 0x9C]"

text \<open>
  \<^verbatim>\<open>save_data\<close>: one write in the chosen format, then the confirmation; any other format
  raises before anything is written. (The progress spinner is not modelled.)
\<close>

definition save_data :: "DataFrame \<Rightarrow> string \<Rightarrow> string \<Rightarrow> event list \<times> (error + unit)" where
  "save_data data output_path format_type =
     (if lower format_type = ''parquet''
      then ([WriteParquet output_path data,
             Print (''[green]'' @ check_mark @ '' Data saved to '' @ output_path @ ''[/green]'')],
            Inr ())
      else if lower format_type = ''csv''
      then ([WriteCsv output_path data,
             Print (''[green]'' @ check_mark @ '' Data saved to '' @ output_path @ ''[/green]'')],
            Inr ())
      else ([], Inl (ValueError (''Unsupported format: '' @ format_type))))"

text \<open>\<^verbatim>\<open>display_summary\<close> only renders its argument; it is kept as a single event.\<close>

definition display_summary :: "DataFrame \<Rightarrow> event list" where
  "display_summary data = [PrintSummary data]"

section \<open>cli.py\<close>

text \<open>\<^verbatim>\<open>str(e)\<close> of an exception, and \<^verbatim>\<open>str(n)\<close> of a natural number.\<close>

fun message :: "error \<Rightarrow> string" where
  "message (ValueError m) = m"
| "message (AttributeError m) = m"
| "message (ColumnNotFoundError m) = m"
| "message (RequestError m) = m"
| "message (TimestampError m) = m"

fun str_nat :: "nat \<Rightarrow> string" where
  "str_nat n =
     (if n < 10 then [''0123456789'' ! n]
      else str_nat (n div 10) @ [''0123456789'' ! (n mod 10)])"

text \<open>Lines 85 to 89: the extension of the output path follows the format.\<close>

definition normalized_output :: "world \<Rightarrow> string \<Rightarrow> string \<Rightarrow> string" where
  "normalized_output w output_file format_type =
     (if lower format_type = ''parquet'' \<and> suffix w output_file \<noteq> ''.parquet''
      then with_suffix w output_file ''.parquet''
      else if lower format_type = ''csv'' \<and> suffix w output_file \<noteq> ''.csv''
      then with_suffix w output_file ''.csv''
      else output_file)"

text \<open>Lines 92 to 100: what is printed before the work starts.\<close>

definition banner ::
  "string \<Rightarrow> string \<Rightarrow> string option \<Rightarrow> string \<Rightarrow> string \<Rightarrow> bool \<Rightarrow> event list" where
  "banner start_date end_date input_csv output_file format_type backfill =
     [Print ''[bold blue]Fear and Greed Index Scraper[/bold blue]'',
      Print (''Date range: '' @ start_date @ '' to '' @ end_date)]
     @ (case input_csv of None \<Rightarrow> [] | Some p \<Rightarrow> [Print (''Input CSV: '' @ p)])
     @ [Print (''Output: '' @ output_file @ '' ('' @ upper format_type @ '')''),
        Print (''Backfill: '' @ (if backfill then ''Enabled'' else ''Disabled'')),
        Print []]"

text \<open>
  Lines 91 to 127, the body of the \<^verbatim>\<open>try\<close>: any exception of the work is printed and becomes
  exit status 1.
\<close>

definition run ::
  "world \<Rightarrow> string \<Rightarrow> string \<Rightarrow> string option \<Rightarrow> string \<Rightarrow> string \<Rightarrow> bool \<Rightarrow> bool
    \<Rightarrow> event list \<times> nat" where
  "run w start_date end_date input_csv output_file format_type backfill show_summary =
     (let processed = process_data w start_date end_date input_csv backfill;
          before = banner start_date end_date input_csv output_file format_type backfill
                   @ fst processed
      in case snd processed of
           Inl e \<Rightarrow> (before @ [Print (''[red]Error: '' @ message e @ ''[/red]'')], 1)
         | Inr data \<Rightarrow>
             (let saved = save_data data output_file format_type
              in case snd saved of
                   Inl e \<Rightarrow>
                     (before @ fst saved @ [Print (''[red]Error: '' @ message e @ ''[/red]'')], 1)
                 | Inr u \<Rightarrow>
                     (before @ fst saved
                      @ (if show_summary then Print [] # display_summary data else [])
                      @ [Print ([CHR 0x0A] @ ''[bold green]'' @ check_mark_cli
                                @ '' Successfully processed '' @ str_nat (height data)
                                @ '' records![/bold green]'')],
                      0)))"

text \<open>
  The \<^verbatim>\<open>scrape\<close> command: the events it causes and its exit status. \<^verbatim>\<open>typer.Exit(1)\<close> is
  exit status 1; it is not a \<^verbatim>\<open>ValueError\<close>, so the handler of line 81 lets it pass.
\<close>

definition scrape ::
  "world \<Rightarrow> string \<Rightarrow> string \<Rightarrow> string option \<Rightarrow> string \<Rightarrow> string \<Rightarrow> bool \<Rightarrow> bool
    \<Rightarrow> event list \<times> nat" where
  "scrape w start_date end_date input_csv output_file format_type backfill show_summary =
     (if lower format_type \<notin> set [''parquet'', ''csv'']
      then ([Print ''[red]Error: Format must be 'parquet' or 'csv'[/red]''], 1)
      else
        (case strptime w start_date of
           Inl m \<Rightarrow>
             ([Print (''[red]Error: Invalid date format. Use YYYY-MM-DD. '' @ m @ ''[/red]'')], 1)
         | Inr start_dt \<Rightarrow>
             (case strptime w end_date of
                Inl m \<Rightarrow>
                  ([Print (''[red]Error: Invalid date format. Use YYYY-MM-DD. '' @ m @ ''[/red]'')],
                   1)
              | Inr end_dt \<Rightarrow>
                  if start_dt > end_dt
                  then ([Print ''[red]Error: Start date must be before end date[/red]''], 1)
                  else run w start_date end_date input_csv
                         (normalized_output w output_file format_type) format_type
                         backfill show_summary)))"

section \<open>Reading the inputs and the result as series\<close>

text \<open>
  The existing series is the table of the CSV file (empty without \<^verbatim>\<open>csv_file\<close>), the fetched
  series is the converted payload, and the series of a frame is its \<^verbatim>\<open>Date\<close> column
  beside its \<^verbatim>\<open>Fear Greed\<close> column.
\<close>

definition existing_series :: "world \<Rightarrow> string option \<Rightarrow> (date \<times> cell) list" where
  "existing_series w csv_file =
     (case csv_file of
        None \<Rightarrow> []
      | Some p \<Rightarrow> (case files w p of None \<Rightarrow> [] | Some table \<Rightarrow> table))"

definition fetched_series :: "world \<Rightarrow> string \<Rightarrow> (date \<times> int) list" where
  "fetched_series w start_date =
     (case api w start_date of
        Inl m \<Rightarrow> []
      | Inr historical_data \<Rightarrow>
          (case api_records w historical_data of Inl e \<Rightarrow> [] | Inr records \<Rightarrow> records))"

definition series_of :: "DataFrame \<Rightarrow> (date \<times> cell) list" where
  "series_of df =
     (case column_index ''Fear Greed'' (value_columns df) of
        None \<Rightarrow> []
      | Some i \<Rightarrow> map (\<lambda>r. (fst r, snd r ! i)) (rows df))"


section \<open>Notions for the backward fill\<close>

text \<open>
  Used to state and prove what the backward fill yields; not part of the program.
  \<open>next_value\<close> is the first known cell of a column, \<open>day_rows\<close> the rows that the left
  join gives a date from the fetched series alone, \<open>fill_series\<close> the backward fill of a
  series, and \<open>next_in F ds\<close> the first fetched value of the first date of \<open>ds\<close> that has one.
\<close>

fun next_value :: "cell list \<Rightarrow> cell" where
  "next_value [] = None"
| "next_value (Some x # vs) = Some x"
| "next_value (None # vs) = next_value vs"

definition day_rows :: "(date \<times> int) list \<Rightarrow> date \<Rightarrow> (date \<times> cell) list" where
  "day_rows F d =
     (if d \<in> fst ` set F then map (\<lambda>v. (d, Some v)) (map snd (filter (\<lambda>p. fst p = d) F))
      else [(d, None)])"

definition fill_series :: "(date \<times> cell) list \<Rightarrow> (date \<times> cell) list" where
  "fill_series S = zip (map fst S) (fill_null_backward (map snd S))"

definition next_in :: "(date \<times> int) list \<Rightarrow> date list \<Rightarrow> cell" where
  "next_in F ds = next_value (map snd (concat (map (day_rows F) ds)))"

section \<open>A concrete world\<close>

text \<open>
  The end-to-end scenario of the specification: the file \<^verbatim>\<open>old.csv\<close> holds 10 for
  2024-01-01 (ordinal 738886), the API returns 20 for 2024-01-01 and 30 for 2024-01-03. Its
  \<open>localdate\<close> is the calendar of UTC on the days 0001-01-02 to 9999-12-31 (the ordinals 2 to
  3652059; that of 1970-01-01 is 719163) and an error elsewhere. Of the strings it parses
  the two that the examples use. No other file exists. In \<open>silent_world\<close> the API returns no
  entry.
\<close>

definition scenario_world :: world where
  "scenario_world =
     \<lparr>strptime = (\<lambda>s. if s = ''2024-01-01'' then Inr 738886
                       else if s = ''2024-01-02'' then Inr 738887
                       else if s = ''2024-01-03'' then Inr 738888
                       else Inl (''time data '' @ s @ '' does not match format %Y-%m-%d'')),
      localdate = (\<lambda>t. if 2 \<le> 719163 + t div 86400 \<and> 719163 + t div 86400 \<le> 3652059
                       then Inr (719163 + t div 86400)
                       else Inl ''year is out of range''),
      int_of_str = (\<lambda>s. if s = ''1704240000000'' then Inr 1704240000000
                         else if s = ''30'' then Inr 30
                         else Inl (''invalid literal for int() with base 10: '' @ s)),
      files = (\<lambda>p. if p = ''old.csv'' then Some [(738886, Some 10)] else None),
      api = (\<lambda>s. Inr [(JNumber 1704067200000, JNumber 20), (JNumber 1704240000000, JNumber 30)]),
      suffix = (\<lambda>p. []),
      with_suffix = (\<lambda>p s. p @ s)\<rparr>"

definition silent_world :: world where
  "silent_world = scenario_world\<lparr>api := (\<lambda>s. Inr [])\<rparr>"


section \<open>Unfolding the model\<close>

lemmas frame_defs = height_def value_columns_def right_names_def matching_def join_row_def
  unmatched_rows_def join_def with_column_def fill_null_value_def sort_df_def

lemmas run_defs = fetch_historical_data_def read_csv_def load_existing_data_def py_int_def
  fromtimestamp_date_def api_record_def api_df_def combined_def date_range_def fill_missing_def
  reconcile_def process_data_def BASE_URL_def

lemmas cli_defs = lower_def upper_def check_mark_def check_mark_cli_def save_data_def display_summary_def
  normalized_output_def banner_def run_def scrape_def

lemmas world_defs = scenario_world_def silent_world_def

section \<open>The frame operations\<close>

lemma matching_Nil_iff: "matching d rs = [] \<longleftrightarrow> d \<notin> fst ` set rs"
  by (auto simp: matching_def filter_empty_conv)

lemma matching_distinct:
  "distinct (map fst rs) \<Longrightarrow> length (matching d rs) \<le> 1"
  by (induction rs) (auto simp: matching_def filter_empty_conv intro: rev_image_eqI)

lemma fst_join_row: "r \<in> set (join_row k rs l) \<Longrightarrow> fst r = fst l"
  by (auto simp: join_row_def split: if_splits)

lemma join_row_nonempty: "join_row k rs l \<noteq> []"
  by (auto simp: join_row_def)

lemma join_row_distinct:
  assumes "distinct (map fst rs)"
  shows "map fst (join_row k rs l) = [fst l]"
proof (cases "matching (fst l) rs")
  case Nil
  then show ?thesis by (simp add: join_row_def)
next
  case (Cons m ms)
  with matching_distinct [OF assms, of "fst l"] have "ms = []" by simp
  with Cons show ?thesis by (simp add: join_row_def)
qed

lemma join_rows_dates_distinct:
  "distinct (map fst rs) \<Longrightarrow> map fst (concat (map (join_row k rs) ls)) = map fst ls"
  by (induction ls) (simp_all add: join_row_distinct)

lemma join_rows_dates_set:
  "fst ` set (concat (map (join_row k rs) ls)) = fst ` set ls"
proof (induction ls)
  case Nil
  then show ?case by simp
next
  case (Cons l ls)
  have "fst ` set (join_row k rs l) = {fst l}"
    using join_row_nonempty [of k rs l] fst_join_row [of _ k rs l]
    by (cases "join_row k rs l") (auto simp: image_iff)
  with Cons show ?case by (simp add: image_Un)
qed

lemma fst_unmatched_rows:
  "map fst (unmatched_rows k ls rs) = filter (\<lambda>d. d \<notin> fst ` set ls) (map fst rs)"
  by (simp add: unmatched_rows_def filter_map comp_def)

lemma length_fill_null_backward [simp]: "length (fill_null_backward vs) = length vs"
  by (induction vs) (auto split: option.splits list.splits)

lemma length_fill_null_value [simp]: "length (fill_null_value c vs) = length vs"
  by (simp add: fill_null_value_def)

lemma with_column_Inr:
  assumes "with_column name f df = Inr g"
  obtains i where "column_index name (value_columns df) = Some i"
    and "rows g = map (\<lambda>(r, v). (fst r, (snd r)[i := v]))
                    (zip (rows df) (f (map (\<lambda>r. snd r ! i) (rows df))))"
    and "columns g = columns df"
  using assms by (auto simp: with_column_def split: option.splits)

lemma with_column_dates:
  assumes "with_column name f df = Inr g" and "\<And>vs. length (f vs) = length vs"
  shows "map fst (rows g) = map fst (rows df)"
proof -
  from assms(1) obtain i where
    g: "rows g = map (\<lambda>(r, v). (fst r, (snd r)[i := v]))
                 (zip (rows df) (f (map (\<lambda>r. snd r ! i) (rows df))))"
    by (rule with_column_Inr)
  have "map fst (map (\<lambda>(r, v). (fst r, (snd r)[i := v])) (zip xs ys)) = map fst xs"
    if "length ys = length xs" for xs :: "(date \<times> cell list) list" and ys
    using that by (induction xs ys rule: list_induct2') auto
  then show ?thesis by (simp add: g assms(2))
qed

lemma fill_missing_dates:
  "fill_missing bf result = Inr filled \<Longrightarrow> map fst (rows filled) = map fst (rows result)"
  by (auto simp: fill_missing_def dest!: with_column_dates split: if_splits)

lemma fill_missing_columns:
  "fill_missing bf result = Inr filled \<Longrightarrow> columns filled = columns result"
  by (auto simp: fill_missing_def elim!: with_column_Inr split: if_splits)

lemma join_Left_Inr:
  assumes "join df other Left = Inr j"
  shows "rows j = concat (map (join_row (length (value_columns other)) (rows other)) (rows df))"
    and "columns j = columns df @ right_names df other"
    and "''Date'' \<in> set (columns other)"
  using assms by (auto simp: join_def split: if_splits)

lemma join_left_dates_set:
  "join df other Left = Inr j \<Longrightarrow> fst ` set (rows j) = fst ` set (rows df)"
  by (simp only: join_Left_Inr(1) join_rows_dates_set)

lemma join_left_dates_distinct:
  "join df other Left = Inr j \<Longrightarrow> distinct (map fst (rows other)) \<Longrightarrow>
   map fst (rows j) = map fst (rows df)"
  by (simp only: join_Left_Inr(1) join_rows_dates_distinct)

lemma rows_date_range: "map fst (rows (date_range s e)) = [s..e]"
  by (simp add: date_range_def comp_def)

section \<open>The combined frame\<close>

lemma combined_columns:
  assumes "combined (Some (read_csv E)) (api_df F) = Inr comb" and "F \<noteq> []"
  shows "columns comb = (if E = [] then [''Date'', ''Fear Greed'']
                         else [''Date'', ''Fear Greed'', ''Fear Greed_right''])"
  using assms
  by (auto simp: combined_def read_csv_def api_df_def height_def join_def right_names_def
      value_columns_def split: if_splits)

lemma combined_rows:
  assumes "combined (Some (read_csv E)) (api_df F) = Inr comb" and "F \<noteq> []"
  shows "rows comb =
     (if E = [] then rows (api_df F)
      else concat (map (join_row 1 (rows (api_df F))) (rows (read_csv E)))
           @ unmatched_rows 1 (rows (read_csv E)) (rows (api_df F)))"
  using assms
  by (auto simp: combined_def read_csv_def api_df_def height_def join_def right_names_def
      value_columns_def split: if_splits)

lemma dates_read_csv: "map fst (rows (read_csv E)) = map fst E"
  by (simp add: read_csv_def comp_def case_prod_unfold)

lemma dates_api_df: "map fst (rows (api_df F)) = map fst F"
  by (simp add: api_df_def comp_def case_prod_unfold)

lemma combined_dates_list:
  assumes "combined (Some (read_csv E)) (api_df F) = Inr comb" and "F \<noteq> []"
    and "distinct (map fst F)"
  shows "map fst (rows comb) =
     (if E = [] then map fst F
      else map fst E @ filter (\<lambda>d. d \<notin> set (map fst E)) (map fst F))"
proof -
  have F': "distinct (map fst (rows (api_df F)))"
    using assms(3) by (simp only: dates_api_df)
  have "fst ` set (rows (read_csv E)) = set (map fst E)"
    by (simp only: dates_read_csv [symmetric] set_map)
  then show ?thesis
    unfolding combined_rows [OF assms(1,2)]
    by (simp only: map_append join_rows_dates_distinct [OF F'] fst_unmatched_rows
        dates_read_csv dates_api_df if_distrib [of "map fst"])
qed


lemma combined_distinct:
  assumes "combined (Some (read_csv E)) (api_df F) = Inr comb" and "F \<noteq> []"
    and "distinct (map fst E)" and "distinct (map fst F)"
  shows "distinct (map fst (rows comb))"
  unfolding combined_dates_list [OF assms(1,2,4)] using assms(3,4) by auto

lemma combined_dates:
  assumes "combined (Some (read_csv E)) (api_df F) = Inr comb" and "F \<noteq> []"
  shows "fst ` set (rows comb) = fst ` set E \<union> fst ` set F"
proof -
  have E': "fst ` set (rows (read_csv E)) = fst ` set E"
    using arg_cong [OF dates_read_csv [of E], of set] by (simp only: set_map)
  have F': "fst ` set (rows (api_df F)) = fst ` set F"
    using arg_cong [OF dates_api_df [of F], of set] by (simp only: set_map)
  have U: "fst ` set (unmatched_rows 1 (rows (read_csv E)) (rows (api_df F)))
           = fst ` set F - fst ` set E"
    using arg_cong [OF fst_unmatched_rows [of 1 "rows (read_csv E)" "rows (api_df F)"], of set]
    by (simp only: set_map set_filter E' F') auto
  show ?thesis
  proof (cases "E = []")
    case True
    then show ?thesis by (simp add: combined_rows [OF assms] F')
  next
    case False
    then show ?thesis
      by (simp only: combined_rows [OF assms] if_False set_append image_Un
          join_rows_dates_set E' U) auto
  qed
qed

section \<open>When \<open>process_data\<close> returns\<close>

text \<open>
  A returned frame went through every step: both dates parsed, the payload was converted
  and not empty (the frame of an empty payload has no \<^verbatim>\<open>Date\<close> column to join on), and an
  input file, when one was named, existed.
\<close>

lemma process_data_Inr:
  assumes "snd (process_data w sd ed csv bf) = Inr r"
  shows "fetched_series w sd \<noteq> [] \<and> (\<exists>s e comb result filled.
      strptime w sd = Inr s \<and> strptime w ed = Inr e \<and>
      combined (Some (read_csv (existing_series w csv))) (api_df (fetched_series w sd)) = Inr comb \<and>
      join (date_range s e) comb Left = Inr result \<and>
      fill_missing bf result = Inr filled \<and> r = sort_df filled)"
proof -
  from assms obtain payload recs where
    p: "api w sd = Inr payload" and c: "api_records w payload = Inr recs"
    by (auto simp: process_data_def Let_def fetch_historical_data_def split: sum.splits)
  have F: "fetched_series w sd = recs"
    by (simp add: fetched_series_def p c)
  from assms obtain fng where
    l: "(case csv of Some p \<Rightarrow> snd (load_existing_data w p) | None \<Rightarrow> Some (read_csv [])) = Some fng"
    and rec: "reconcile w (Some fng) (api_df recs) sd ed bf = Inr r"
    by (auto simp: process_data_def Let_def fetch_historical_data_def p c reconcile_def
        combined_def read_csv_def split: sum.splits option.splits)
  have E: "fng = read_csv (existing_series w csv)"
    using l by (auto simp: existing_series_def load_existing_data_def split: option.splits)
  from rec obtain s e comb result filled where
    *: "strptime w sd = Inr s" "strptime w ed = Inr e"
      "combined (Some fng) (api_df recs) = Inr comb"
      "join (date_range s e) comb Left = Inr result"
      "fill_missing bf result = Inr filled" "r = sort_df filled"
    by (auto simp: reconcile_def split: sum.splits)
  have "recs \<noteq> []"
  proof
    assume "recs = []"
    then have "''Date'' \<notin> set (columns comb)"
      using *(3) by (auto simp: combined_def api_df_def join_def split: if_splits)
    then show False using *(4) by (simp add: join_def)
  qed
  then show ?thesis using * E F by auto
qed

lemma process_data_columns:
  assumes "snd (process_data w sd ed csv bf) = Inr r"
  shows "columns r = (if existing_series w csv = [] then [''Date'', ''Fear Greed'']
                      else [''Date'', ''Fear Greed'', ''Fear Greed_right''])"
proof -
  from process_data_Inr [OF assms] obtain s e comb result filled where
    F: "fetched_series w sd \<noteq> []" and
    c: "combined (Some (read_csv (existing_series w csv))) (api_df (fetched_series w sd)) = Inr comb"
    and j: "join (date_range s e) comb Left = Inr result"
    and f: "fill_missing bf result = Inr filled" and r: "r = sort_df filled"
    by blast
  have "columns r = columns result"
    by (simp add: r sort_df_def fill_missing_columns [OF f])
  also have "\<dots> = columns (date_range s e) @ right_names (date_range s e) comb"
    by (rule join_Left_Inr(2) [OF j])
  finally show ?thesis
    by (simp add: combined_columns [OF c F] date_range_def right_names_def value_columns_def)
qed

text \<open>In either shape the \<^verbatim>\<open>Fear Greed\<close> column is the first after the date.\<close>

lemma process_data_series:
  assumes "snd (process_data w sd ed csv bf) = Inr r"
  shows "series_of r = map (\<lambda>x. (fst x, snd x ! 0)) (rows r)"
  by (simp add: series_of_def value_columns_def process_data_columns [OF assms])

lemma process_data_series_dates:
  assumes "snd (process_data w sd ed csv bf) = Inr r"
  shows "map fst (series_of r) = map fst (rows r)"
  by (simp add: process_data_series [OF assms] comp_def)

lemma process_data_dates:
  assumes "snd (process_data w sd ed csv bf) = Inr r"
    and "strptime w sd = Inr s" and "strptime w ed = Inr e"
  shows "fst ` set (rows r) = {s..e}"
proof -
  from process_data_Inr [OF assms(1)] assms(2,3) obtain comb result filled where
    j: "join (date_range s e) comb Left = Inr result"
    and f: "fill_missing bf result = Inr filled" and r: "r = sort_df filled"
    by auto
  have "set (map fst (rows r)) = set (map fst (rows result))"
    by (simp only: fill_missing_dates [OF f, symmetric]) (simp add: r sort_df_def)
  also have "\<dots> = set (map fst (rows (date_range s e)))"
    using join_left_dates_set [OF j] by simp
  also have "\<dots> = {s..e}"
    by (simp only: rows_date_range) simp
  finally show ?thesis by simp
qed

lemma process_data_rows_distinct:
  assumes "snd (process_data w sd ed csv bf) = Inr r"
    and "strptime w sd = Inr s" and "strptime w ed = Inr e"
    and "distinct (map fst (existing_series w csv))"
    and "distinct (map fst (fetched_series w sd))"
  shows "map fst (rows r) = [s..e]"
proof -
  from process_data_Inr [OF assms(1)] assms(2,3) obtain comb result filled where
    F: "fetched_series w sd \<noteq> []" and
    c: "combined (Some (read_csv (existing_series w csv))) (api_df (fetched_series w sd)) = Inr comb"
    and j: "join (date_range s e) comb Left = Inr result"
    and f: "fill_missing bf result = Inr filled" and r: "r = sort_df filled"
    by auto
  have "map fst (rows filled) = map fst (rows (date_range s e))"
    by (simp only: fill_missing_dates [OF f]
        join_left_dates_distinct [OF j combined_distinct [OF c F assms(4,5)]])
  then have d: "map fst (rows filled) = [s..e]"
    by (simp only: rows_date_range)
  then have "sorted (map fst (rows filled))"
    by simp
  then have "rows r = rows filled"
    by (simp add: r sort_df_def sort_key_id_if_sorted)
  with d show ?thesis by simp
qed

lemma left_join_unmatched:
  assumes "join (date_range s e) comb Left = Inr result"
    and "d \<notin> fst ` set (rows comb)" and "x \<in> set (rows result)" and "fst x = d"
  shows "snd x = replicate (length (value_columns comb)) None"
proof -
  from assms(3) obtain d' where "x \<in> set (join_row (length (value_columns comb)) (rows comb) (d', []))"
    by (auto simp: join_Left_Inr(1) [OF assms(1)] date_range_def)
  moreover from this have "d' = d"
    using fst_join_row assms(4) by fastforce
  ultimately show ?thesis
    using assms(2) by (simp add: join_row_def matching_Nil_iff)
qed

lemma zip_map_column:
  "map (\<lambda>(r, v). h r v) (zip xs (map g (map p xs))) = map (\<lambda>r. h r (g (p r))) xs"
  by (induction xs) simp_all

lemma fill_zero_rows:
  assumes "fill_missing False result = Inr filled"
  obtains i where "column_index ''Fear Greed'' (value_columns result) = Some i"
    and "rows filled = map (\<lambda>r. (fst r, (snd r)[i := (case snd r ! i of None \<Rightarrow> Some 0 | Some v \<Rightarrow> Some v)])) (rows result)"
proof -
  from assms have "with_column ''Fear Greed'' (fill_null_value 0) result = Inr filled"
    by (simp add: fill_missing_def)
  then obtain i where i: "column_index ''Fear Greed'' (value_columns result) = Some i"
    and "rows filled = map (\<lambda>(r, v). (fst r, (snd r)[i := v]))
                    (zip (rows result) (fill_null_value 0 (map (\<lambda>r. snd r ! i) (rows result))))"
    by (rule with_column_Inr)
  then have "rows filled = map (\<lambda>r. (fst r, (snd r)[i := (case snd r ! i of None \<Rightarrow> Some 0 | Some v \<Rightarrow> Some v)])) (rows result)"
    by (simp only: fill_null_value_def zip_map_column)
  with i show ?thesis by (rule that)
qed

text \<open>
  Conversely the program returns a frame on every such input, so the properties below, which
  are about the returned frame, are about something.
\<close>

lemma process_data_returns:
  assumes "csv = None \<or> (\<exists>p table. csv = Some p \<and> files w p = Some table)"
    and "api w sd = Inr payload" and "api_records w payload = Inr recs" and "recs \<noteq> []"
    and "strptime w sd = Inr s" and "strptime w ed = Inr e"
  shows "\<exists>r. snd (process_data w sd ed csv bf) = Inr r"
  using assms
  by (auto simp: process_data_def Let_def fetch_historical_data_def load_existing_data_def
      reconcile_def combined_def read_csv_def api_df_def height_def join_def right_names_def
      value_columns_def date_range_def fill_missing_def with_column_def)

lemma scenario_start: "strptime scenario_world ''2024-01-01'' = Inr 738886"
  by (simp add: world_defs)

lemma scenario_end: "strptime scenario_world ''2024-01-03'' = Inr 738888"
  by (simp add: world_defs)

lemma scenario_existing: "existing_series scenario_world (Some ''old.csv'') = [(738886, Some 10)]"
  by (simp add: existing_series_def world_defs)

lemma scenario_no_existing: "existing_series scenario_world None = []"
  by (simp add: existing_series_def)

lemma scenario_fetched:
  "fetched_series scenario_world ''2024-01-01'' = [(738886, 20), (738888, 30)]"
  by (simp add: fetched_series_def world_defs api_record_def py_int_def fromtimestamp_date_def)

section \<open>The backward fill\<close>

lemma fill_null_backward_Nil_iff [simp]: "fill_null_backward vs = [] \<longleftrightarrow> vs = []"
  by (cases vs) (auto split: option.splits list.splits)

lemma hd_fill_null_backward:
  "fill_null_backward vs = n # ns \<Longrightarrow> n = next_value vs"
proof (induction vs arbitrary: n ns)
  case Nil
  then show ?case by simp
next
  case (Cons v vs)
  then show ?case
    by (cases v; cases "fill_null_backward vs") auto
qed

lemma fill_null_backward_Cons:
  "fill_null_backward (v # vs) = next_value (v # vs) # fill_null_backward vs"
proof (cases v)
  case None
  then show ?thesis
    by (cases "fill_null_backward vs") (auto dest: hd_fill_null_backward)
next
  case (Some x)
  then show ?thesis by simp
qed

lemma fill_null_backward_known:
  "fill_null_backward (map Some xs @ vs) = map Some xs @ fill_null_backward vs"
  by (induction xs) simp_all


lemma day_rows_observed:
  "d \<in> fst ` set F \<Longrightarrow>
   day_rows F d = map (\<lambda>v. (d, Some v)) (map snd (filter (\<lambda>p. fst p = d) F))"
  by (simp add: day_rows_def)

lemma day_rows_unobserved: "d \<notin> fst ` set F \<Longrightarrow> day_rows F d = [(d, None)]"
  by (simp add: day_rows_def)

lemma fill_series_unknown:
  "fill_series ((d, None) # S) = (d, next_value (map snd S)) # fill_series S"
  by (simp add: fill_series_def fill_null_backward_Cons del: fill_null_backward.simps)

lemma fill_series_known:
  "fill_series (map (\<lambda>v. (d, Some v)) vs @ S) = map (\<lambda>v. (d, Some v)) vs @ fill_series S"
proof -
  have "map snd (map (\<lambda>v. (d, Some v)) vs @ S) = map Some vs @ map snd S"
    by (simp add: comp_def)
  moreover have "zip (map fst (map (\<lambda>v. (d, Some v)) vs)) (map Some vs) = map (\<lambda>v. (d, Some v)) vs"
    by (induction vs) simp_all
  ultimately show ?thesis
    by (simp add: fill_series_def fill_null_backward_known zip_append del: map_map)
qed

lemma fill_series_upto:
  "(d, c) \<in> set (fill_series (concat (map (day_rows F) [s..e]))) \<Longrightarrow> d \<notin> fst ` set F \<Longrightarrow>
   c = next_in F [d + 1..e]"
proof (induction s e rule: upto.induct)
  case (1 s e)
  show ?case
  proof (cases "s \<le> e")
    case False
    with 1(2) show ?thesis by (simp add: fill_series_def)
  next
    case True
    then have u: "[s..e] = s # [s + 1..e]"
      by (simp add: upto_rec1)
    show ?thesis
    proof (cases "s \<in> fst ` set F")
      case obs: True
      from 1(2) have "(d, c) \<in> set (map (\<lambda>v. (s, Some v)) (map snd (filter (\<lambda>p. fst p = s) F)))
          \<or> (d, c) \<in> set (fill_series (concat (map (day_rows F) [s + 1..e])))"
        unfolding u by (simp add: day_rows_observed [OF obs] fill_series_known del: map_map)
      then show ?thesis
      proof
        assume "(d, c) \<in> set (map (\<lambda>v. (s, Some v)) (map snd (filter (\<lambda>p. fst p = s) F)))"
        then have "d = s" by auto
        with obs 1(3) show ?thesis by simp
      next
        assume "(d, c) \<in> set (fill_series (concat (map (day_rows F) [s + 1..e])))"
        then show ?thesis by (rule 1(1) [OF True _ 1(3)])
      qed
    next
      case unobs: False
      from 1(2) have "(d, c) = (s, next_in F [s + 1..e])
          \<or> (d, c) \<in> set (fill_series (concat (map (day_rows F) [s + 1..e])))"
        unfolding u by (simp add: day_rows_unobserved [OF unobs] fill_series_unknown next_in_def)
      then show ?thesis
      proof
        assume "(d, c) = (s, next_in F [s + 1..e])"
        then show ?thesis by simp
      next
        assume "(d, c) \<in> set (fill_series (concat (map (day_rows F) [s + 1..e])))"
        then show ?thesis by (rule 1(1) [OF True _ 1(3)])
      qed
    qed
  qed
qed


lemma map_of_first_match:
  "d \<in> fst ` set F \<Longrightarrow> map_of F d = Some (hd (map snd (filter (\<lambda>p. fst p = d) F)))"
  by (induction F) auto

lemma next_value_known: "vs \<noteq> [] \<Longrightarrow> next_value (map Some vs @ cs) = Some (hd vs)"
  by (cases vs) simp_all

lemma next_in_Cons:
  "next_in F (d # ds) = (if d \<in> fst ` set F then map_of F d else next_in F ds)"
proof (cases "d \<in> fst ` set F")
  case True
  define vs where "vs = map snd (filter (\<lambda>p. fst p = d) F)"
  have ne: "vs \<noteq> []"
    using True by (auto simp: vs_def filter_empty_conv)
  have "map snd (day_rows F d) = map Some vs"
    by (simp add: day_rows_observed [OF True] vs_def comp_def)
  then have "next_in F (d # ds) = Some (hd vs)"
    by (simp add: next_in_def next_value_known [OF ne])
  also have "\<dots> = map_of F d"
    by (simp add: map_of_first_match [OF True] vs_def)
  finally show ?thesis using True by simp
next
  case False
  then show ?thesis
    by (simp add: next_in_def day_rows_unobserved [OF False])
qed

lemma next_in_none: "\<forall>x \<in> set ds. x \<notin> fst ` set F \<Longrightarrow> next_in F ds = None"
  by (induction ds) (simp_all add: next_in_Cons, simp add: next_in_def)

lemma next_in_nearest:
  assumes "d < d'" and "d' \<le> e" and "d' \<in> fst ` set F"
    and "\<forall>x. d < x \<and> x < d' \<longrightarrow> x \<notin> fst ` set F"
  shows "next_in F [d + 1..e] = map_of F d'"
proof -
  have skip: "next_in F (xs @ ys) = next_in F ys" if "\<forall>x \<in> set xs. x \<notin> fst ` set F" for xs ys
    using that by (induction xs) (simp_all add: next_in_Cons)
  have "[d + 1..e] = [d + 1..d' - 1] @ d' # [d' + 1..e]"
    using assms(1,2) by (intro upto_split3) simp_all
  then show ?thesis
    using assms(3,4) by (simp add: skip next_in_Cons)
qed


lemma rows_api_df: "rows (api_df F) = map (\<lambda>(d, v). (d, [Some v])) F"
  by (simp add: api_df_def)

lemma matching_api_df:
  "matching d (rows (api_df F)) = map (\<lambda>v. [Some v]) (map snd (filter (\<lambda>p. fst p = d) F))"
  unfolding rows_api_df by (induction F) (auto simp: matching_def)

lemma join_row_api_df:
  "map (\<lambda>x. (fst x, snd x ! 0)) (join_row (Suc 0) (rows (api_df F)) (d, [])) = day_rows F d"
proof -
  have "d \<in> fst ` set F \<longleftrightarrow> map snd (filter (\<lambda>p. fst p = d) F) \<noteq> []"
    by (auto simp: filter_empty_conv)
  then show ?thesis
    by (simp add: join_row_def matching_api_df day_rows_def comp_def)
qed

lemma join_row_api_df_cells:
  "x \<in> set (join_row (Suc 0) (rows (api_df F)) (d, [])) \<Longrightarrow> snd x \<noteq> []"
  by (auto simp: join_row_def matching_api_df split: if_splits)

lemma left_rows_api_df:
  "map (\<lambda>x. (fst x, snd x ! 0))
     (concat (map (join_row (Suc 0) (rows (api_df F))) (map (\<lambda>d. (d, [])) ds)))
   = concat (map (day_rows F) ds)"
  by (induction ds) (simp_all add: join_row_api_df)

lemma left_rows_api_df_cells:
  "x \<in> set (concat (map (join_row (Suc 0) (rows (api_df F))) (map (\<lambda>d. (d, [])) ds))) \<Longrightarrow> snd x \<noteq> []"
  by (auto dest: join_row_api_df_cells)

lemma series_with_column:
  assumes "\<forall>x \<in> set R. snd x \<noteq> []" and "length vs = length R"
  shows "map (\<lambda>x. (fst x, snd x ! 0)) (map (\<lambda>(r, v). (fst r, (snd r)[0 := v])) (zip R vs))
         = zip (map fst R) vs"
  using assms(2,1) by (induction R vs rule: list_induct2') auto


lemma process_data_backfill_series:
  assumes "snd (process_data w sd ed csv True) = Inr r"
    and "strptime w sd = Inr s" and "strptime w ed = Inr e"
    and "existing_series w csv = []"
  shows "set (series_of r)
         = set (fill_series (concat (map (day_rows (fetched_series w sd)) [s..e])))"
proof -
  define F where "F = fetched_series w sd"
  from process_data_Inr [OF assms(1)] assms(2,3,4) obtain comb result filled where
    F: "F \<noteq> []" and
    c: "combined (Some (read_csv [])) (api_df F) = Inr comb"
    and j: "join (date_range s e) comb Left = Inr result"
    and f: "fill_missing True result = Inr filled" and r: "r = sort_df filled"
    by (auto simp: F_def)
  define R where "R = concat (map (join_row (Suc 0) (rows (api_df F))) (map (\<lambda>d. (d, [])) [s..e]))"
  have cc: "columns comb = [''Date'', ''Fear Greed'']" and rc: "rows comb = rows (api_df F)"
    using combined_columns [OF c F] combined_rows [OF c F] by simp_all
  have R: "rows result = R"
    by (simp add: join_Left_Inr(1) [OF j] R_def value_columns_def cc rc date_range_def)
  have i: "column_index ''Fear Greed'' (value_columns result) = Some 0"
    by (simp add: value_columns_def join_Left_Inr(2) [OF j] cc date_range_def right_names_def)
  from f have "with_column ''Fear Greed'' fill_null_backward result = Inr filled"
    by (simp add: fill_missing_def)
  then obtain i' where "column_index ''Fear Greed'' (value_columns result) = Some i'"
    and "rows filled = map (\<lambda>(r, v). (fst r, (snd r)[i' := v]))
           (zip (rows result) (fill_null_backward (map (\<lambda>r. snd r ! i') (rows result))))"
    by (rule with_column_Inr)
  with i R have rf: "rows filled = map (\<lambda>(r, v). (fst r, (snd r)[0 := v]))
           (zip R (fill_null_backward (map (\<lambda>r. snd r ! 0) R)))"
    by simp
  have S0: "map (\<lambda>x. (fst x, snd x ! 0)) R = concat (map (day_rows F) [s..e])"
    unfolding R_def by (rule left_rows_api_df)
  have fstR: "map fst R = map fst (concat (map (day_rows F) [s..e]))"
    unfolding S0 [symmetric] by (simp add: comp_def)
  have sndR: "map (\<lambda>r. snd r ! 0) R = map snd (concat (map (day_rows F) [s..e]))"
    unfolding S0 [symmetric] by (simp add: comp_def)
  have cells: "\<forall>x \<in> set R. snd x \<noteq> []"
    unfolding R_def using left_rows_api_df_cells by blast
  have "set (series_of r) = set (map (\<lambda>x. (fst x, snd x ! 0)) (rows filled))"
    by (simp add: process_data_series [OF assms(1)]) (simp add: r sort_df_def)
  also have "\<dots> = set (zip (map fst R) (fill_null_backward (map (\<lambda>r. snd r ! 0) R)))"
    unfolding rf by (subst series_with_column [OF cells]) simp_all
  also have "\<dots> = set (fill_series (concat (map (day_rows F) [s..e])))"
    by (simp only: fstR sndR fill_series_def)
  finally show ?thesis by (simp only: F_def)
qed

text \<open>
  Where no existing row is merged in, the backward fill does what is expected of it: a date
  of \<open>[start, end]\<close> with no fetched observation is in the returned series; it has the first
  fetched value of the nearest later date of \<open>[start, end]\<close> that has one, and it stays null
  when no later date of \<open>[start, end]\<close> has one.
\<close>

lemma backward_fill_fetched_only:
  assumes "snd (process_data w start_date end_date csv_file True) = Inr r"
    and "strptime w start_date = Inr s" and "strptime w end_date = Inr e"
    and "existing_series w csv_file = []"
    and "s \<le> d" and "d \<le> e"
    and "d \<notin> fst ` set (fetched_series w start_date)"
  shows "d \<in> fst ` set (series_of r)
    \<and> (\<forall>c d'. (d, c) \<in> set (series_of r) \<and> d < d' \<and> d' \<le> e
            \<and> d' \<in> fst ` set (fetched_series w start_date)
            \<and> (\<forall>x. d < x \<and> x < d' \<longrightarrow> x \<notin> fst ` set (fetched_series w start_date))
          \<longrightarrow> c = map_of (fetched_series w start_date) d'
              \<and> (\<exists>v. c = Some v \<and> (d', v) \<in> set (fetched_series w start_date)))
    \<and> (\<forall>c. (d, c) \<in> set (series_of r)
            \<and> (\<forall>x. d < x \<and> x \<le> e \<longrightarrow> x \<notin> fst ` set (fetched_series w start_date))
          \<longrightarrow> c = None)"
proof -
  have c: "c = next_in (fetched_series w start_date) [d + 1..e]"
    if "(d, c) \<in> set (series_of r)" for c
    using that assms(7)
    unfolding process_data_backfill_series [OF assms(1,2,3,4)] by (rule fill_series_upto)
  have "d \<in> fst ` set (rows r)"
    using assms(5,6) by (simp add: process_data_dates [OF assms(1,2,3)])
  then have 1: "d \<in> fst ` set (series_of r)"
    using arg_cong [OF process_data_series_dates [OF assms(1)], of set] by simp
  have 2: "c = map_of (fetched_series w start_date) d'
      \<and> (\<exists>v. c = Some v \<and> (d', v) \<in> set (fetched_series w start_date))"
    if "(d, c) \<in> set (series_of r)" "d < d'" "d' \<le> e"
      "d' \<in> fst ` set (fetched_series w start_date)"
      "\<forall>x. d < x \<and> x < d' \<longrightarrow> x \<notin> fst ` set (fetched_series w start_date)" for c d'
  proof -
    have eq: "c = map_of (fetched_series w start_date) d'"
      using c [OF that(1)] next_in_nearest [OF that(2,3,4,5)] by simp
    from that(4) obtain v where "map_of (fetched_series w start_date) d' = Some v"
      by (auto simp: map_of_first_match)
    with eq show ?thesis by (auto dest: map_of_SomeD)
  qed
  have 3: "c = None"
    if "(d, c) \<in> set (series_of r)"
      "\<forall>x. d < x \<and> x \<le> e \<longrightarrow> x \<notin> fst ` set (fetched_series w start_date)" for c
    using c [OF that(1)] next_in_none [of "[d + 1..e]" "fetched_series w start_date"] that(2)
    by simp
  from 1 2 3 show ?thesis by blast
qed

lemma backward_fill_fetched_only_example:
  "snd (process_data scenario_world ''2024-01-01'' ''2024-01-03'' None True)
     = Inr \<lparr>columns = [''Date'', ''Fear Greed''],
            rows = [(738886, [Some 20]), (738887, [Some 30]), (738888, [Some 30])]\<rparr>
   \<and> (738887, Some 30) \<in> set (series_of
        \<lparr>columns = [''Date'', ''Fear Greed''],
         rows = [(738886, [Some 20]), (738887, [Some 30]), (738888, [Some 30])]\<rparr>)
   \<and> Some 30 = map_of (fetched_series scenario_world ''2024-01-01'') 738888"
proof -
  have h: "snd (process_data scenario_world ''2024-01-01'' ''2024-01-03'' None True)
     = Inr \<lparr>columns = [''Date'', ''Fear Greed''],
            rows = [(738886, [Some 20]), (738887, [Some 30]), (738888, [Some 30])]\<rparr>"
    by (simp add: frame_defs run_defs world_defs)
  have n: "738887 \<notin> fst ` set (fetched_series scenario_world ''2024-01-01'')"
    by (simp add: scenario_fetched)
  have le: "(738886 :: int) \<le> 738887" "(738887 :: int) \<le> 738888" by simp_all
  have m: "(738887, Some 30) \<in> set (series_of
        \<lparr>columns = [''Date'', ''Fear Greed''],
         rows = [(738886, [Some 20]), (738887, [Some 30]), (738888, [Some 30])]\<rparr>)"
    by (simp add: series_of_def value_columns_def)
  have near: "(738887 :: int) < 738888 \<and> (738888 :: int) \<le> 738888
      \<and> 738888 \<in> fst ` set (fetched_series scenario_world ''2024-01-01'')
      \<and> (\<forall>x. 738887 < x \<and> x < 738888
            \<longrightarrow> x \<notin> fst ` set (fetched_series scenario_world ''2024-01-01''))"
    by (simp add: scenario_fetched)
  from backward_fill_fetched_only [OF h scenario_start scenario_end scenario_no_existing le n] m near
  have "Some 30 = map_of (fetched_series scenario_world ''2024-01-01'') 738888"
    by blast
  with h m show ?thesis by blast
qed

section \<open>The payload conversion\<close>

lemma floor_div_1000: "\<lfloor>(x::rat) / 1000\<rfloor> = \<lfloor>x\<rfloor> div 1000"
proof (rule floor_unique)
  define k where "k = \<lfloor>x\<rfloor>"
  have k: "of_int k \<le> x" "x < of_int k + 1"
    unfolding k_def by linarith+
  have lo: "1000 * (k div 1000) \<le> k" and hi: "k + 1 \<le> 1000 * (k div 1000) + 1000"
    by presburger+
  have "(of_int (1000 * (k div 1000)) :: rat) \<le> of_int k"
    using lo by (simp only: of_int_le_iff)
  moreover have "(of_int (k + 1) :: rat) \<le> of_int (1000 * (k div 1000) + 1000)"
    using hi by (simp only: of_int_le_iff)
  ultimately have "1000 * of_int (k div 1000) \<le> x" "x < 1000 * of_int (k div 1000) + 1000"
    using k by simp_all
  then show "of_int (\<lfloor>x\<rfloor> div 1000) \<le> x / 1000" "x / 1000 < of_int (\<lfloor>x\<rfloor> div 1000) + 1"
    unfolding k_def by simp_all
qed

lemma trunc_abs: "\<bar>of_int (if 0 \<le> y then \<lfloor>y\<rfloor> else \<lceil>y\<rceil>)\<bar> \<le> \<bar>y :: rat\<bar>"
  by simp

lemma trunc_near: "\<bar>y - of_int (if 0 \<le> y then \<lfloor>y\<rfloor> else \<lceil>y\<rceil>)\<bar> < (1 :: rat)"
  by simp linarith

lemma api_records_nth:
  "api_records w historical_data = Inr records \<Longrightarrow>
   length records = length historical_data
   \<and> (\<forall>i < length historical_data. api_record w (historical_data ! i) = Inr (records ! i))"
proof (induction historical_data arbitrary: records)
  case Nil
  then show ?case by simp
next
  case (Cons entry historical_data)
  from Cons.prems obtain r rs where
    r: "api_record w entry = Inr r" and rs: "api_records w historical_data = Inr rs"
    and records: "records = r # rs"
    by (auto split: sum.splits)
  from Cons.IH [OF rs] r show ?case
    by (auto simp: records nth_Cons split: nat.splits)
qed

lemma trunc_whole: "q \<in> \<int> \<Longrightarrow> (if 0 \<le> q then \<lfloor>q\<rfloor> else \<lceil>q :: rat\<rceil>) = \<lfloor>q\<rfloor>"
  by (auto elim!: Ints_cases)

lemma api_record_Inr:
  assumes "api_record w (x, y) = Inr (d, v)"
  shows "py_int w y = Inr v"
    and "\<exists>ts. py_int w x = Inr ts \<and> localdate w (ts div 1000) = Inr d"
  using assms by (auto simp: api_record_def fromtimestamp_date_def split: sum.splits)

text \<open>
  An entry is converted exactly when both of its values are accepted by \<^verbatim>\<open>int\<close> and the
  library has a date for the timestamp; at the first entry that is not, the loop raises.
\<close>

lemma api_record_returns:
  assumes "py_int w x = Inr timestamp" and "localdate w (timestamp div 1000) = Inr d"
    and "py_int w y = Inr v"
  shows "api_record w (x, y) = Inr (d, v)"
  using assms by (simp add: api_record_def fromtimestamp_date_def)

lemma year_10000_raises:
  "api_records scenario_world [(JNumber 253402300800000, JNumber 50)]
   = Inl (TimestampError ''year is out of range'')"
  by (simp add: run_defs world_defs)

section \<open>The claims\<close>

text \<open>
  C8 (sort invariant). Whatever the order of the existing and of the fetched observations,
  the series that \<open>process_data\<close> returns is ascending by date.
\<close>

theorem sort_invariant:
  assumes "snd (process_data w start_date end_date csv_file backfill) = Inr r"
  shows "sorted (map fst (series_of r))"
proof -
  from process_data_Inr [OF assms] obtain filled where "r = sort_df filled"
    by blast
  then have "sorted (map fst (rows r))"
    by (simp add: sort_df_def)
  then show ?thesis
    by (simp only: process_data_series_dates [OF assms])
qed

theorem sort_invariant_witness:
  "snd (process_data scenario_world ''2024-01-01'' ''2024-01-03'' None False)
     = Inr \<lparr>columns = [''Date'', ''Fear Greed''],
            rows = [(738886, [Some 20]), (738887, [Some 0]), (738888, [Some 30])]\<rparr>
   \<and> sorted (map fst (series_of
        \<lparr>columns = [''Date'', ''Fear Greed''],
         rows = [(738886, [Some 20]), (738887, [Some 0]), (738888, [Some 30])]\<rparr>))"
proof -
  have h: "snd (process_data scenario_world ''2024-01-01'' ''2024-01-03'' None False)
     = Inr \<lparr>columns = [''Date'', ''Fear Greed''],
            rows = [(738886, [Some 20]), (738887, [Some 0]), (738888, [Some 30])]\<rparr>"
    by (simp add: frame_defs run_defs world_defs)
  from h sort_invariant [OF h] show ?thesis by (rule conjI)
qed

text \<open>
  C10 (range restriction). Every date of the series that \<open>process_data\<close> returns lies in
  \<open>[start, end]\<close>: an observation of the existing or of the fetched series whose date is
  outside the range does not appear in it.
\<close>

theorem range_restriction:
  assumes "snd (process_data w start_date end_date csv_file backfill) = Inr r"
    and "strptime w start_date = Inr s" and "strptime w end_date = Inr e"
  shows "\<forall>x \<in> set (series_of r). s \<le> fst x \<and> fst x \<le> e"
proof -
  have "fst ` set (series_of r) = fst ` set (rows r)"
    using arg_cong [OF process_data_series_dates [OF assms(1)], of set] by simp
  then have "fst ` set (series_of r) = {s..e}"
    by (simp only: process_data_dates [OF assms])
  then have "fst x \<in> {s..e}" if "x \<in> set (series_of r)" for x
    using that by blast
  then show ?thesis by simp
qed

theorem range_restriction_witness:
  "snd (process_data scenario_world ''2024-01-01'' ''2024-01-02'' None True)
     = Inr \<lparr>columns = [''Date'', ''Fear Greed''],
            rows = [(738886, [Some 20]), (738887, [None])]\<rparr>
   \<and> (738887, None) \<in> set (series_of \<lparr>columns = [''Date'', ''Fear Greed''],
                                      rows = [(738886, [Some 20]), (738887, [None])]\<rparr>)
   \<and> 738886 \<le> fst (738887 :: date, None :: cell)
   \<and> fst (738887 :: date, None :: cell) \<le> 738887"
proof -
  have h: "snd (process_data scenario_world ''2024-01-01'' ''2024-01-02'' None True)
     = Inr \<lparr>columns = [''Date'', ''Fear Greed''],
            rows = [(738886, [Some 20]), (738887, [None])]\<rparr>"
    by (simp add: frame_defs run_defs world_defs)
  have e: "strptime scenario_world ''2024-01-02'' = Inr 738887"
    by (simp add: world_defs)
  have m: "(738887, None) \<in> set (series_of \<lparr>columns = [''Date'', ''Fear Greed''],
                                      rows = [(738886, [Some 20]), (738887, [None])]\<rparr>)"
    by (simp add: series_of_def value_columns_def)
  from h m bspec [OF range_restriction [OF h scenario_start e] m] show ?thesis
    by blast
qed

text \<open>
  C2 (calendar completeness). For \<open>start \<le> end\<close> and existing and fetched series whose dates
  are unique, the series that \<open>process_data\<close> returns has exactly \<open>(end - start).days + 1\<close>
  rows: each calendar date of \<open>[start, end]\<close> once, in order, with no gap and no duplicate.
\<close>

theorem calendar_completeness:
  assumes "snd (process_data w start_date end_date csv_file backfill) = Inr r"
    and "strptime w start_date = Inr s" and "strptime w end_date = Inr e"
    and "s \<le> e"
    and "distinct (map fst (existing_series w csv_file))"
    and "distinct (map fst (fetched_series w start_date))"
  shows "map fst (series_of r) = [s..e] \<and> int (length (series_of r)) = e - s + 1
         \<and> distinct (map fst (series_of r))"
proof -
  have d: "map fst (series_of r) = [s..e]"
    by (simp only: process_data_series_dates [OF assms(1)]
        process_data_rows_distinct [OF assms(1,2,3,5,6)])
  have "length (map fst (series_of r)) = length [s..e]"
    by (simp only: d)
  then have "int (length (series_of r)) = e - s + 1"
    using assms(4) by simp
  with d show ?thesis by simp
qed

theorem calendar_completeness_witness:
  "snd (process_data scenario_world ''2024-01-01'' ''2024-01-03'' (Some ''old.csv'') True)
     = Inr \<lparr>columns = [''Date'', ''Fear Greed'', ''Fear Greed_right''],
            rows = [(738886, [Some 10, Some 20]), (738887, [None, None]),
                    (738888, [None, Some 30])]\<rparr>
   \<and> map fst (series_of
        \<lparr>columns = [''Date'', ''Fear Greed'', ''Fear Greed_right''],
         rows = [(738886, [Some 10, Some 20]), (738887, [None, None]),
                 (738888, [None, Some 30])]\<rparr>) = [738886..738888]
   \<and> int (length (series_of
        \<lparr>columns = [''Date'', ''Fear Greed'', ''Fear Greed_right''],
         rows = [(738886, [Some 10, Some 20]), (738887, [None, None]),
                 (738888, [None, Some 30])]\<rparr>)) = 738888 - 738886 + 1"
proof -
  have h: "snd (process_data scenario_world ''2024-01-01'' ''2024-01-03'' (Some ''old.csv'') True)
     = Inr \<lparr>columns = [''Date'', ''Fear Greed'', ''Fear Greed_right''],
            rows = [(738886, [Some 10, Some 20]), (738887, [None, None]),
                    (738888, [None, Some 30])]\<rparr>"
    by (simp add: frame_defs run_defs world_defs)
  have d1: "distinct (map fst (existing_series scenario_world (Some ''old.csv'')))"
    by (simp add: scenario_existing)
  have d2: "distinct (map fst (fetched_series scenario_world ''2024-01-01''))"
    by (simp add: scenario_fetched)
  have le: "(738886 :: int) \<le> 738888" by simp
  from h calendar_completeness [OF h scenario_start scenario_end le d1 d2] show ?thesis
    by blast
qed

text \<open>
  C4 (zero-fill). Without \<open>backfill\<close>, a date of \<open>[start, end]\<close> that has no observation in
  the existing series and none in the fetched series has the value 0 in the series that
  \<open>process_data\<close> returns, and no other value.
\<close>

theorem zero_fill:
  assumes "snd (process_data w start_date end_date csv_file False) = Inr r"
    and "strptime w start_date = Inr s" and "strptime w end_date = Inr e"
    and "s \<le> d" and "d \<le> e"
    and "d \<notin> fst ` set (existing_series w csv_file)"
    and "d \<notin> fst ` set (fetched_series w start_date)"
  shows "(d, Some 0) \<in> set (series_of r) \<and> (\<forall>c. (d, c) \<in> set (series_of r) \<longrightarrow> c = Some 0)"
proof -
  from process_data_Inr [OF assms(1)] assms(2,3) obtain comb result filled where
    F: "fetched_series w start_date \<noteq> []" and
    c: "combined (Some (read_csv (existing_series w csv_file)))
          (api_df (fetched_series w start_date)) = Inr comb"
    and j: "join (date_range s e) comb Left = Inr result"
    and f: "fill_missing False result = Inr filled" and r: "r = sort_df filled"
    by auto
  have k: "0 < length (value_columns comb)"
    by (simp add: value_columns_def combined_columns [OF c F])
  have i: "column_index ''Fear Greed'' (value_columns result) = Some 0"
    by (simp add: value_columns_def join_Left_Inr(2) [OF j] combined_columns [OF c F]
        date_range_def right_names_def)
  from f obtain i' where "column_index ''Fear Greed'' (value_columns result) = Some i'"
    and "rows filled = map (\<lambda>r. (fst r, (snd r)[i' := (case snd r ! i' of None \<Rightarrow> Some 0 | Some v \<Rightarrow> Some v)])) (rows result)"
    by (rule fill_zero_rows)
  with i have rf: "rows filled = map (\<lambda>r. (fst r, (snd r)[0 := (case snd r ! 0 of None \<Rightarrow> Some 0 | Some v \<Rightarrow> Some v)])) (rows result)"
    by simp
  have un: "d \<notin> fst ` set (rows comb)"
    using assms(6,7) by (simp add: combined_dates [OF c F])
  have S: "set (series_of r) = (\<lambda>x. (fst x, snd x ! 0)) ` set (rows filled)"
    by (simp add: process_data_series [OF assms(1)]) (simp add: r sort_df_def)
  have all: "c' = Some 0" if "(d, c') \<in> set (series_of r)" for c'
  proof -
    from that obtain x where x: "x \<in> set (rows result)" "fst x = d"
      and c': "c' = ((snd x)[0 := (case snd x ! 0 of None \<Rightarrow> Some 0 | Some v \<Rightarrow> Some v)]) ! 0"
      unfolding S rf by auto
    from left_join_unmatched [OF j un x] k c' show ?thesis
      by (cases "length (value_columns comb)") simp_all
  qed
  have "d \<in> fst ` set (rows r)"
    using assms(4,5) by (simp add: process_data_dates [OF assms(1,2,3)])
  then have "d \<in> fst ` set (series_of r)"
    using arg_cong [OF process_data_series_dates [OF assms(1)], of set] by simp
  then obtain c' where "(d, c') \<in> set (series_of r)" by auto
  with all show ?thesis by blast
qed

theorem zero_fill_witness:
  "snd (process_data scenario_world ''2024-01-01'' ''2024-01-03'' (Some ''old.csv'') False)
     = Inr \<lparr>columns = [''Date'', ''Fear Greed'', ''Fear Greed_right''],
            rows = [(738886, [Some 10, Some 20]), (738887, [Some 0, None]),
                    (738888, [Some 0, Some 30])]\<rparr>
   \<and> (738887, Some 0) \<in> set (series_of
        \<lparr>columns = [''Date'', ''Fear Greed'', ''Fear Greed_right''],
         rows = [(738886, [Some 10, Some 20]), (738887, [Some 0, None]),
                 (738888, [Some 0, Some 30])]\<rparr>)"
proof -
  have h: "snd (process_data scenario_world ''2024-01-01'' ''2024-01-03'' (Some ''old.csv'') False)
     = Inr \<lparr>columns = [''Date'', ''Fear Greed'', ''Fear Greed_right''],
            rows = [(738886, [Some 10, Some 20]), (738887, [Some 0, None]),
                    (738888, [Some 0, Some 30])]\<rparr>"
    by (simp add: frame_defs run_defs world_defs)
  have n1: "738887 \<notin> fst ` set (existing_series scenario_world (Some ''old.csv''))"
    by (simp add: scenario_existing)
  have n2: "738887 \<notin> fst ` set (fetched_series scenario_world ''2024-01-01'')"
    by (simp add: scenario_fetched)
  have le: "(738886 :: int) \<le> 738887" "(738887 :: int) \<le> 738888" by simp_all
  from h zero_fill [OF h scenario_start scenario_end le n1 n2] show ?thesis
    by blast
qed

text \<open>
  C5 (backward fill) does not hold of the code. With existing rows the fill runs on the
  \<^verbatim>\<open>Fear Greed\<close> column of the join, which holds the existing values only, so a fetched value
  is never propagated backward. Here the file has 10 for 2024-01-01 and the API 20 for
  2024-01-01 and 30 for 2024-01-03: 2024-01-02 has no observation and the nearest later date
  with a value is 2024-01-03, yet 2024-01-02 stays null (and so does 2024-01-03).
\<close>

theorem backward_fill_misses_fetched:
  "existing_series scenario_world (Some ''old.csv'') = [(738886, Some 10)]
   \<and> fetched_series scenario_world ''2024-01-01'' = [(738886, 20), (738888, 30)]
   \<and> snd (process_data scenario_world ''2024-01-01'' ''2024-01-03'' (Some ''old.csv'') True)
       = Inr \<lparr>columns = [''Date'', ''Fear Greed'', ''Fear Greed_right''],
              rows = [(738886, [Some 10, Some 20]), (738887, [None, None]),
                      (738888, [None, Some 30])]\<rparr>
   \<and> series_of \<lparr>columns = [''Date'', ''Fear Greed'', ''Fear Greed_right''],
                 rows = [(738886, [Some 10, Some 20]), (738887, [None, None]),
                         (738888, [None, Some 30])]\<rparr>
       = [(738886, Some 10), (738887, None), (738888, None)]"
proof -
  have "snd (process_data scenario_world ''2024-01-01'' ''2024-01-03'' (Some ''old.csv'') True)
       = Inr \<lparr>columns = [''Date'', ''Fear Greed'', ''Fear Greed_right''],
              rows = [(738886, [Some 10, Some 20]), (738887, [None, None]),
                      (738888, [None, Some 30])]\<rparr>"
    by (simp add: frame_defs run_defs world_defs)
  then show ?thesis
    by (simp add: scenario_fetched scenario_existing series_of_def value_columns_def)
qed

text \<open>
  C1 (merge precedence) does not hold of the code. The outer join coalesces only the key:
  for a date that both series have, the \<^verbatim>\<open>Fear Greed\<close> column of the returned frame keeps the
  existing value, and the fetched value sits in a third column \<^verbatim>\<open>Fear Greed_right\<close>. Here the
  file has 10 and the API 20 for 2024-01-01, and the returned value is 10.
\<close>

theorem merge_keeps_existing:
  "existing_series scenario_world (Some ''old.csv'') = [(738886, Some 10)]
   \<and> fetched_series scenario_world ''2024-01-01'' = [(738886, 20), (738888, 30)]
   \<and> snd (process_data scenario_world ''2024-01-01'' ''2024-01-01'' (Some ''old.csv'') False)
       = Inr \<lparr>columns = [''Date'', ''Fear Greed'', ''Fear Greed_right''],
              rows = [(738886, [Some 10, Some 20])]\<rparr>
   \<and> series_of \<lparr>columns = [''Date'', ''Fear Greed'', ''Fear Greed_right''],
                 rows = [(738886, [Some 10, Some 20])]\<rparr>
       = [(738886, Some 10)]"
proof -
  have "snd (process_data scenario_world ''2024-01-01'' ''2024-01-01'' (Some ''old.csv'') False)
       = Inr \<lparr>columns = [''Date'', ''Fear Greed'', ''Fear Greed_right''],
              rows = [(738886, [Some 10, Some 20])]\<rparr>"
    by (simp add: frame_defs run_defs world_defs)
  then show ?thesis
    by (simp add: scenario_fetched scenario_existing series_of_def value_columns_def)
qed

text \<open>
  C3 (missing input file) does not hold of the code. \<open>load_existing_data\<close> prints the warning
  and returns \<^verbatim>\<open>None\<close>; after the fetch, \<^verbatim>\<open>fng_data.height\<close> raises on it, so no frame is
  returned.
\<close>

theorem missing_file_raises:
  "files scenario_world ''gone.csv'' = None
   \<and> process_data scenario_world ''2024-01-01'' ''2024-01-03'' (Some ''gone.csv'') False
       = ([Print ''[yellow]Warning: gone.csv not found[/yellow]'',
           HttpGet ''https://production.dataviz.cnn.io/index/fearandgreed/graphdata/2024-01-01''],
          Inl (AttributeError (CHR 0x27 # ''NoneType' object has no attribute 'height'' @ [CHR 0x27])))"
  by (simp add: frame_defs run_defs world_defs)

text \<open>
  C6 (idempotence) does not hold of the code. The frame of an empty payload has no column,
  so the join on \<^verbatim>\<open>Date\<close> raises: a complete existing series reconciled with an empty fetch
  is not returned at all, under either policy.
\<close>

theorem empty_fetch_raises:
  "existing_series silent_world (Some ''old.csv'') = [(738886, Some 10)]
   \<and> fetched_series silent_world ''2024-01-01'' = []
   \<and> snd (process_data silent_world ''2024-01-01'' ''2024-01-01'' (Some ''old.csv'') False)
       = Inl (ColumnNotFoundError ''Date'')
   \<and> snd (process_data silent_world ''2024-01-01'' ''2024-01-01'' (Some ''old.csv'') True)
       = Inl (ColumnNotFoundError ''Date'')
   \<and> snd (process_data silent_world ''2024-01-01'' ''2024-01-01'' None False)
       = Inl (ColumnNotFoundError ''Date'')"
  by (simp add: frame_defs run_defs world_defs existing_series_def fetched_series_def)

text \<open>
  C7 (payload conversion), as amended. For every entry \<open>{x, y}\<close> of a payload that is
  converted, the observation has the value \<^verbatim>\<open>int(y)\<close>: a number with its fraction cut off
  (towards zero: the integer nearest to it among those no larger in magnitude), a string
  parsed as an integer. Its date is the local calendar date of \<open>floor(int(x) / 1000)\<close>
  seconds, which is that of \<open>floor(x / 1000)\<close> for every string \<open>x\<close> and every number \<open>x\<close> that
  is whole or not negative.
\<close>

theorem payload_conversion:
  assumes "api_records w historical_data = Inr records"
    and "i < length historical_data"
    and "historical_data ! i = (x, y)"
  shows "i < length records
    \<and> py_int w y = Inr (snd (records ! i))
    \<and> (\<forall>q. y = JNumber q \<longrightarrow>
          snd (records ! i) = (if 0 \<le> q then \<lfloor>q\<rfloor> else \<lceil>q\<rceil>)
          \<and> \<bar>of_int (snd (records ! i))\<bar> \<le> \<bar>q\<bar>
          \<and> \<bar>q - of_int (snd (records ! i))\<bar> < 1)
    \<and> (\<forall>s. y = JString s \<longrightarrow> int_of_str w s = Inr (snd (records ! i)))
    \<and> (\<exists>timestamp. py_int w x = Inr timestamp
          \<and> localdate w (timestamp div 1000) = Inr (fst (records ! i)))
    \<and> (\<forall>q. x = JNumber q \<and> (0 \<le> q \<or> q \<in> \<int>) \<longrightarrow>
          localdate w \<lfloor>q / 1000\<rfloor> = Inr (fst (records ! i)))
    \<and> (\<forall>s. x = JString s \<longrightarrow>
          (\<exists>k. int_of_str w s = Inr k
             \<and> localdate w \<lfloor>(of_int k :: rat) / 1000\<rfloor> = Inr (fst (records ! i))))"
proof -
  from api_records_nth [OF assms(1)] assms(2,3)
  have len: "i < length records"
    and rec: "api_record w (x, y) = Inr (fst (records ! i), snd (records ! i))"
    by auto
  note v = api_record_Inr(1) [OF rec]
  from api_record_Inr(2) [OF rec] obtain timestamp where
    ts: "py_int w x = Inr timestamp" and d: "localdate w (timestamp div 1000) = Inr (fst (records ! i))"
    by blast
  have num: "snd (records ! i) = (if 0 \<le> q then \<lfloor>q\<rfloor> else \<lceil>q\<rceil>)
      \<and> \<bar>of_int (snd (records ! i))\<bar> \<le> \<bar>q\<bar> \<and> \<bar>q - of_int (snd (records ! i))\<bar> < 1"
    if "y = JNumber q" for q
  proof -
    from v that have "snd (records ! i) = (if 0 \<le> q then \<lfloor>q\<rfloor> else \<lceil>q\<rceil>)"
      by (simp add: py_int_def)
    with trunc_abs [of q] trunc_near [of q] show ?thesis by simp
  qed
  have str: "int_of_str w s = Inr (snd (records ! i))" if "y = JString s" for s
    using v that by (auto simp: py_int_def split: sum.splits)
  have date: "localdate w \<lfloor>q / 1000\<rfloor> = Inr (fst (records ! i))"
    if "x = JNumber q \<and> (0 \<le> q \<or> q \<in> \<int>)" for q
  proof -
    from that have "(if 0 \<le> q then \<lfloor>q\<rfloor> else \<lceil>q\<rceil>) = \<lfloor>q\<rfloor>"
      using trunc_whole [of q] by auto
    with ts that have "timestamp = \<lfloor>q\<rfloor>"
      by (simp add: py_int_def)
    with d show ?thesis by (simp add: floor_div_1000)
  qed
  have xstr: "\<exists>k. int_of_str w s = Inr k
      \<and> localdate w \<lfloor>(of_int k :: rat) / 1000\<rfloor> = Inr (fst (records ! i))"
    if "x = JString s" for s
  proof -
    from ts that have "int_of_str w s = Inr timestamp"
      by (auto simp: py_int_def split: sum.splits)
    moreover have "\<lfloor>(of_int timestamp :: rat) / 1000\<rfloor> = timestamp div 1000"
      by (simp add: floor_div_1000)
    ultimately show ?thesis using d by simp
  qed
  from len v num str ts d date xstr show ?thesis by blast
qed

theorem payload_conversion_witness:
  "api_records scenario_world
     [(JNumber 1704067200000, JNumber (228 / 5)), (JNumber (- 1), JNumber 20),
      (JString ''1704240000000'', JString ''30'')]
     = Inr [(738886, 45), (719162, 20), (738888, 30)]
   \<and> snd ([(738886 :: date, 45 :: int), (719162, 20), (738888, 30)] ! 0) = \<lfloor>228 / 5 :: rat\<rfloor>
   \<and> localdate scenario_world \<lfloor>1704067200000 / 1000 :: rat\<rfloor>
       = Inr (fst ([(738886 :: date, 45 :: int), (719162, 20), (738888, 30)] ! 0))
   \<and> localdate scenario_world \<lfloor>(- 1) / 1000 :: rat\<rfloor>
       = Inr (fst ([(738886 :: date, 45 :: int), (719162, 20), (738888, 30)] ! 1))
   \<and> int_of_str scenario_world ''30''
       = Inr (snd ([(738886 :: date, 45 :: int), (719162, 20), (738888, 30)] ! 2))"
proof -
  let ?payload = "[(JNumber 1704067200000, JNumber (228 / 5)), (JNumber (- 1), JNumber 20),
      (JString ''1704240000000'', JString ''30'')]"
  have h: "api_records scenario_world ?payload = Inr [(738886, 45), (719162, 20), (738888, 30)]"
  proof -
    have "\<lceil>- 1 :: rat\<rceil> = - 1"
      using ceiling_of_int [of "- 1", where ?'a = rat] by simp
    then show ?thesis
      by (simp add: run_defs world_defs floor_eq_iff)
  qed
  have i0: "0 < length ?payload" and i1: "1 < length ?payload" and i2: "2 < length ?payload"
    by simp_all
  have n0: "?payload ! 0 = (JNumber 1704067200000, JNumber (228 / 5))"
    and n1: "?payload ! 1 = (JNumber (- 1), JNumber 20)"
    and n2: "?payload ! 2 = (JString ''1704240000000'', JString ''30'')"
    by simp_all
  have w0: "(0 :: rat) \<le> 1704067200000 \<or> (1704067200000 :: rat) \<in> \<int>"
    and w1: "(0 :: rat) \<le> - 1 \<or> (- 1 :: rat) \<in> \<int>"
    by simp_all
  from payload_conversion [OF h i0 n0] payload_conversion [OF h i1 n1]
    payload_conversion [OF h i2 n2] h w0 w1
  show ?thesis
    by (simp add: floor_eq_iff)
qed

text \<open>
  C7 as stated fails on the value: \<^verbatim>\<open>int(y)\<close> cuts the fraction off, it does not round. The
  entry with \<open>y = 45.6\<close> becomes the observation 45, and 45.6 rounds to 46. It fails on the
  date for a negative \<open>x\<close> with a fraction: \<open>x = -0.5\<close> is cut to 0, the first second of
  1970-01-01, where \<open>floor(x / 1000) = -1\<close> is the last second of 1969-12-31.
\<close>

theorem payload_conversion_counterexample:
  "api_records scenario_world [(JNumber (- 1 / 2), JNumber (228 / 5))] = Inr [(719163, 45)]
   \<and> round (228 / 5 :: rat) = 46
   \<and> localdate scenario_world \<lfloor>(- 1 / 2 :: rat) / 1000\<rfloor> = Inr 719162"
proof -
  have "\<lceil>- (1 / 2) :: rat\<rceil> = 0" and "\<lfloor>- (1 / 2000) :: rat\<rfloor> = - 1"
    and "\<lfloor>228 / 5 :: rat\<rfloor> = 45" and "\<lfloor>461 / 10 :: rat\<rfloor> = 46"
    by (simp_all add: floor_eq_iff ceiling_eq_iff)
  then show ?thesis
    by (simp add: run_defs world_defs round_def)
qed

text \<open>
  C9 (boundary validation). When the format is neither \<^verbatim>\<open>parquet\<close> nor \<^verbatim>\<open>csv\<close> in any
  letter case, or a date is not accepted as \<^verbatim>\<open>%Y-%m-%d\<close>, or the start date is after the
  end date, \<open>scrape\<close> prints one error message and exits with status 1; it has fetched,
  merged and saved nothing.
\<close>

theorem boundary_validation:
  assumes "lower format_type \<notin> {''parquet'', ''csv''}
    \<or> (\<exists>m. strptime w start_date = Inl m)
    \<or> (\<exists>m. strptime w end_date = Inl m)
    \<or> (\<exists>s e. strptime w start_date = Inr s \<and> strptime w end_date = Inr e \<and> e < s)"
  shows "snd (scrape w start_date end_date input_csv output_file format_type backfill show_summary) = 1
    \<and> (\<exists>text. fst (scrape w start_date end_date input_csv output_file format_type backfill
                       show_summary) = [Print text])"
  using assms by (auto simp: scrape_def split: sum.splits)

theorem boundary_validation_witness:
  "snd (scrape scenario_world ''2024-01-03'' ''2024-01-01'' None ''fng_data.parquet'' ''parquet''
         False True) = 1
   \<and> fst (scrape scenario_world ''2024-01-03'' ''2024-01-01'' None ''fng_data.parquet'' ''parquet''
         False True) = [Print ''[red]Error: Start date must be before end date[/red]'']
   \<and> snd (scrape scenario_world ''01/01/2024'' ''2024-01-01'' None ''fng_data.parquet'' ''parquet''
         False True) = 1
   \<and> snd (scrape scenario_world ''2024-01-01'' ''2024-01-03'' None ''fng_data.parquet'' ''XLSX''
         False True) = 1"
proof -
  have order: "lower ''parquet'' \<notin> {''parquet'', ''csv''}
    \<or> (\<exists>m. strptime scenario_world ''2024-01-03'' = Inl m)
    \<or> (\<exists>m. strptime scenario_world ''2024-01-01'' = Inl m)
    \<or> (\<exists>s e. strptime scenario_world ''2024-01-03'' = Inr s
          \<and> strptime scenario_world ''2024-01-01'' = Inr e \<and> e < s)"
    by (simp add: world_defs)
  have date: "lower ''parquet'' \<notin> {''parquet'', ''csv''}
    \<or> (\<exists>m. strptime scenario_world ''01/01/2024'' = Inl m)
    \<or> (\<exists>m. strptime scenario_world ''2024-01-01'' = Inl m)
    \<or> (\<exists>s e. strptime scenario_world ''01/01/2024'' = Inr s
          \<and> strptime scenario_world ''2024-01-01'' = Inr e \<and> e < s)"
    by (simp add: world_defs)
  have format: "lower ''XLSX'' \<notin> {''parquet'', ''csv''}
    \<or> (\<exists>m. strptime scenario_world ''2024-01-01'' = Inl m)
    \<or> (\<exists>m. strptime scenario_world ''2024-01-03'' = Inl m)
    \<or> (\<exists>s e. strptime scenario_world ''2024-01-01'' = Inr s
          \<and> strptime scenario_world ''2024-01-03'' = Inr e \<and> e < s)"
    by (simp add: lower_def)
  have "fst (scrape scenario_world ''2024-01-03'' ''2024-01-01'' None ''fng_data.parquet''
          ''parquet'' False True) = [Print ''[red]Error: Start date must be before end date[/red]'']"
    by (simp add: scrape_def lower_def world_defs)
  with boundary_validation [OF order] boundary_validation [OF date]
    boundary_validation [OF format]
  show ?thesis by blast
qed

end
